theory Spec2Isabelle
  imports Main
begin

section \<open>The outside world of \<open>app.py\<close>\<close>

text \<open>
  The program talks to two collaborators: the Telegram transport (pyrogram's \<open>Client\<close>
  and \<open>Message\<close> methods) and the MongoDB collections. Every such call either returns or
  raises. The exceptions the source distinguishes in its \<open>except\<close> clauses are the
  constructors of \<open>error\<close>; every other exception is \<open>OtherError\<close> with its text.
\<close>

datatype error =
    FloodWait nat
  | UserDeactivated
  | PeerIdInvalid
  | ChatAdminRequired
  | OtherError string

text \<open>What the broadcast shows in its status message.\<close>

datatype status_text =
    Starting nat
  | Progress nat nat nat
  | Completed nat nat nat

datatype call =
    ApproveChatJoinRequest int int
  | SendPhoto int
  | SendMessage int
  | CopyMessage int
  | Reply
  | EditText status_text
  | QueueInsert
  | QueueFind
  | QueueUpdate nat
  | StatsInsert
  | ChannelsUpdate int
  | UsersUpdate int
  | UsersFind

datatype event = Called call "error option" | Slept nat

text \<open>
  The environment decides, from everything that has happened so far, whether the next
  call raises (\<open>Some e\<close>) or returns (\<open>None\<close>).
\<close>

type_synonym env = "event list \<Rightarrow> call \<Rightarrow> error option"

record request =
  rid :: nat
  timestamp :: nat
  chat_id :: int
  user_id :: int
  user_first_name :: string
  chat_title :: string
  processed :: bool
  retries :: nat
  failed :: bool
  error :: "error option"
  approved_at :: "nat option"

record stat =
  stat_timestamp :: nat
  stat_chat_id :: int
  stat_user_id :: int
  stat_approved :: bool
  stat_error :: "error option"

record world =
  connected :: bool
  clock :: nat
  trace :: "event list"
  requests_queue :: "request list"
  stats_collection :: "stat list"
  users_collection :: "(int \<times> string) list"
  next_id :: nat

text \<open>
  \<open>connected\<close> is false when the startup connection failed and every collection handle
  is \<open>None\<close>. \<open>clock\<close> is what \<open>datetime.utcnow()\<close> reads; it moves when the program
  sleeps. \<open>next_id\<close> is the store's supply of fresh \<open>_id\<close> values.
\<close>

definition perform :: "env \<Rightarrow> call \<Rightarrow> world \<Rightarrow> error option \<times> world" where
  "perform env c w =
     (let r = env (trace w) c in (r, w\<lparr>trace := trace w @ [Called c r]\<rparr>))"

definition sleep :: "nat \<Rightarrow> world \<Rightarrow> world" where
  "sleep s w = w\<lparr>clock := clock w + s, trace := trace w @ [Slept s]\<rparr>"

section \<open>Helper functions\<close>

fun upsert :: "int \<Rightarrow> string \<Rightarrow> (int \<times> string) list \<Rightarrow> (int \<times> string) list" where
  "upsert u n [] = [(u, n)]"
| "upsert u n ((u', n') # us) = (if u' = u then (u, n) # us else (u', n') # upsert u n us)"

definition save_user :: "env \<Rightarrow> int \<Rightarrow> string \<Rightarrow> world \<Rightarrow> bool \<times> world" where
  "save_user env u first_name w =
     (if \<not> connected w then (False, w)
      else case perform env (UsersUpdate u) w of
             (Some e, w1) \<Rightarrow> (False, w1)
           | (None, w1) \<Rightarrow>
               (True, w1\<lparr>users_collection := upsert u first_name (users_collection w1)\<rparr>))"


text \<open>
  \<open>update_stats\<close> swallows every store exception. The per-channel counter it increments
  is not read by any function modelled here, so only the call is recorded.
\<close>

definition update_stats ::
    "env \<Rightarrow> int \<Rightarrow> int \<Rightarrow> bool \<Rightarrow> error option \<Rightarrow> world \<Rightarrow> world" where
  "update_stats env chat u approved err w =
     (if \<not> connected w then w
      else case perform env StatsInsert w of
             (Some e, w1) \<Rightarrow> w1
           | (None, w1) \<Rightarrow>
               (let w2 = w1\<lparr>stats_collection := stats_collection w1 @
                           [\<lparr>stat_timestamp = clock w1, stat_chat_id = chat,
                             stat_user_id = u, stat_approved = approved,
                             stat_error = err\<rparr>]\<rparr>
                in if approved then snd (perform env (ChannelsUpdate chat) w2) else w2))"

section \<open>The approval worker: \<open>approve_single_request\<close>\<close>

text \<open>
  The body of the \<open>except FloodWait\<close> clause. An exception raised inside it is not
  caught by the sibling clauses: it leaves the function (\<open>Inl\<close>).
\<close>

definition on_flood_wait ::
    "env \<Rightarrow> nat \<Rightarrow> int \<Rightarrow> int \<Rightarrow> string \<Rightarrow> world \<Rightarrow> (error + bool) \<times> world" where
  "on_flood_wait env s chat u first_name w =
     (let w1 = sleep s w in
      case perform env (ApproveChatJoinRequest chat u) w1 of
        (Some e, w2) \<Rightarrow> (Inl e, w2)
      | (None, w2) \<Rightarrow>
          (let w3 = update_stats env chat u True None w2;
               w4 = snd (save_user env u first_name w3)
           in (Inr True, w4)))"

text \<open>The \<open>except\<close> clauses, in the order of the source.\<close>

fun handle_exception ::
    "env \<Rightarrow> error \<Rightarrow> int \<Rightarrow> int \<Rightarrow> string \<Rightarrow> world \<Rightarrow> (error + bool) \<times> world" where
  "handle_exception env (FloodWait s) chat u first_name w =
     on_flood_wait env s chat u first_name w"
| "handle_exception env UserDeactivated chat u first_name w =
     (Inr False, update_stats env chat u False (Some UserDeactivated) w)"
| "handle_exception env PeerIdInvalid chat u first_name w =
     (Inr False, update_stats env chat u False (Some PeerIdInvalid) w)"
| "handle_exception env ChatAdminRequired chat u first_name w =
     (Inr False, update_stats env chat u False (Some ChatAdminRequired) w)"
| "handle_exception env (OtherError m) chat u first_name w =
     (Inr False, update_stats env chat u False (Some (OtherError m)) w)"

text \<open>The body of the \<open>try\<close>: \<open>Inl e\<close> when one of its calls raises \<open>e\<close>.\<close>

definition approve_try_block ::
    "env \<Rightarrow> int \<Rightarrow> int \<Rightarrow> string \<Rightarrow> world \<Rightarrow> (error + bool) \<times> world" where
  "approve_try_block env chat u first_name w =
     (case perform env (ApproveChatJoinRequest chat u) w of
        (Some e, w1) \<Rightarrow> (Inl e, w1)
      | (None, w1) \<Rightarrow>
          (case perform env (SendPhoto u) w1 of
             (Some e, w2) \<Rightarrow> (Inl e, w2)
           | (None, w2) \<Rightarrow>
               (case perform env (SendMessage u) w2 of
                  (Some e, w3) \<Rightarrow> (Inl e, w3)
                | (None, w3) \<Rightarrow>
                    (let w4 = update_stats env chat u True None w3;
                         w5 = snd (save_user env u first_name w4)
                     in (Inr True, w5)))))"

definition approve_single_request ::
    "env \<Rightarrow> int \<Rightarrow> int \<Rightarrow> string \<Rightarrow> string \<Rightarrow> world \<Rightarrow> (error + bool) \<times> world" where
  "approve_single_request env chat u first_name title w =
     (case approve_try_block env chat u first_name w of
        (Inl e, w1) \<Rightarrow> handle_exception env e chat u first_name w1
      | (Inr b, w1) \<Rightarrow> (Inr b, w1))"

section \<open>The work item store and the queue processor\<close>

record join_request =
  jr_chat_id :: int
  jr_chat_title :: string
  jr_user_id :: int
  jr_user_first_name :: string

definition new_request :: "join_request \<Rightarrow> world \<Rightarrow> request" where
  "new_request jr w =
     \<lparr>rid = next_id w, timestamp = clock w, chat_id = jr_chat_id jr,
      user_id = jr_user_id jr, user_first_name = jr_user_first_name jr,
      chat_title = jr_chat_title jr, processed = False, retries = 0,
      failed = False, error = None, approved_at = None\<rparr>"

text \<open>
  \<open>add_request_to_queue\<close> returns \<open>None\<close> on every path; the result type keeps a place
  for an exception so that "nothing escapes" is a statement and not a typing fact.
\<close>

definition add_request_to_queue ::
    "env \<Rightarrow> join_request \<Rightarrow> world \<Rightarrow> (error + unit) \<times> world" where
  "add_request_to_queue env jr w =
     (if \<not> connected w then (Inr (), w)
      else case perform env QueueInsert w of
             (None, w1) \<Rightarrow>
               (Inr (), w1\<lparr>requests_queue := requests_queue w1 @ [new_request jr w1],
                           next_id := Suc (next_id w1)\<rparr>)
           | (Some e, w1) \<Rightarrow>
               (case approve_single_request env (jr_chat_id jr) (jr_user_id jr)
                       (jr_user_first_name jr) (jr_chat_title jr) w1 of
                  (Inl inner_e, w2) \<Rightarrow> (Inr (), w2)
                | (Inr b, w2) \<Rightarrow> (Inr (), w2)))"

text \<open>\<open>find({"processed": False}).sort("timestamp", 1).limit(n)\<close>; the source has \<open>n = 10\<close>.\<close>

definition fetch_batch :: "nat \<Rightarrow> request list \<Rightarrow> request list" where
  "fetch_batch n q = take n (sort_key timestamp (filter (\<lambda>r. \<not> processed r) q))"

definition find_pending :: "env \<Rightarrow> nat \<Rightarrow> world \<Rightarrow> (error + request list) \<times> world" where
  "find_pending env n w =
     (case perform env QueueFind w of
        (Some e, w1) \<Rightarrow> (Inl e, w1)
      | (None, w1) \<Rightarrow> (Inr (fetch_batch n (requests_queue w1)), w1))"

text \<open>\<open>update_one({"_id": i}, ...)\<close> changes the first document with that id, if any.\<close>

fun update_one :: "nat \<Rightarrow> (request \<Rightarrow> request) \<Rightarrow> request list \<Rightarrow> request list" where
  "update_one i f [] = []"
| "update_one i f (r # rs) = (if rid r = i then f r # rs else r # update_one i f rs)"

definition queue_update ::
    "env \<Rightarrow> nat \<Rightarrow> (request \<Rightarrow> request) \<Rightarrow> world \<Rightarrow> error option \<times> world" where
  "queue_update env i f w =
     (case perform env (QueueUpdate i) w of
        (Some e, w1) \<Rightarrow> (Some e, w1)
      | (None, w1) \<Rightarrow> (None, w1\<lparr>requests_queue := update_one i f (requests_queue w1)\<rparr>))"

definition mark_processed :: "nat \<Rightarrow> request \<Rightarrow> request" where
  "mark_processed now r = r\<lparr>processed := True, approved_at := Some now\<rparr>"

definition mark_failed :: "error \<Rightarrow> request \<Rightarrow> request" where
  "mark_failed e r = r\<lparr>processed := True, error := Some e, failed := True\<rparr>"

definition inc_retries :: "request \<Rightarrow> request" where
  "inc_retries r = r\<lparr>retries := retries r + 1\<rparr>"

text \<open>
  The inner \<open>except Exception as e\<close> of \<open>process_queue\<close>. \<open>request\<close> is the document as
  fetched at the start of the batch; an exception of the update itself leaves the
  \<open>for\<close> loop.
\<close>

definition on_request_exception ::
    "env \<Rightarrow> request \<Rightarrow> error \<Rightarrow> world \<Rightarrow> error option \<times> world" where
  "on_request_exception env request e w =
     (let retry_count = retries request + 1 in
      if retry_count \<ge> 3 then queue_update env (rid request) (mark_failed e) w
      else queue_update env (rid request) inc_retries w)"

text \<open>
  The body of the \<open>for\<close> loop. The value returned by \<open>approve_single_request\<close> is not
  looked at.
\<close>

definition process_request :: "env \<Rightarrow> request \<Rightarrow> world \<Rightarrow> error option \<times> world" where
  "process_request env request w =
     (case approve_single_request env (chat_id request) (user_id request)
             (user_first_name request) (chat_title request) w of
        (Inl e, w1) \<Rightarrow> on_request_exception env request e w1
      | (Inr b, w1) \<Rightarrow>
          (case queue_update env (rid request) (mark_processed (clock w1)) w1 of
             (Some e, w2) \<Rightarrow> on_request_exception env request e w2
           | (None, w2) \<Rightarrow> (None, w2)))"

fun process_batch :: "env \<Rightarrow> request list \<Rightarrow> world \<Rightarrow> error option \<times> world" where
  "process_batch env [] w = (None, w)"
| "process_batch env (r # rs) w =
     (case process_request env r w of
        (Some e, w1) \<Rightarrow> (Some e, w1)
      | (None, w1) \<Rightarrow> process_batch env rs w1)"

text \<open>One pass through the body of \<open>while True\<close>.\<close>

definition process_queue_iteration :: "env \<Rightarrow> world \<Rightarrow> world" where
  "process_queue_iteration env w =
     (case find_pending env 10 w of
        (Inl e, w1) \<Rightarrow> sleep 5 w1
      | (Inr requests, w1) \<Rightarrow>
          if requests = [] then sleep 1 w1
          else (case process_batch env requests w1 of
                  (Some e, w2) \<Rightarrow> sleep 5 w2
                | (None, w2) \<Rightarrow> sleep 1 w2))"

text \<open>
  \<open>process_queue\<close> returns at once without a database and otherwise never returns;
  the model runs a given number of passes.
\<close>

fun process_queue :: "env \<Rightarrow> nat \<Rightarrow> world \<Rightarrow> world" where
  "process_queue env 0 w = w"
| "process_queue env (Suc n) w =
     (if \<not> connected w then w else process_queue env n (process_queue_iteration env w))"

section \<open>The system: join events and processor passes\<close>

datatype action = Join join_request | Pass

fun run :: "env \<Rightarrow> action list \<Rightarrow> world \<Rightarrow> world" where
  "run env [] w = w"
| "run env (Join jr # acts) w = run env acts (snd (add_request_to_queue env jr w))"
| "run env (Pass # acts) w = run env acts (process_queue env 1 w)"

section \<open>The broadcast\<close>








section \<open>The life of a work item\<close>

text \<open>
  What one pass of the processor may do to a stored document: nothing, or, for a
  document with \<open>processed = False\<close>, one of its three updates: \<open>$inc retries\<close> (when
  \<open>retries + 1 < 3\<close>), the success update, or the failure update (when
  \<open>retries + 1 \<ge> 3\<close>).
\<close>

definition transition :: "request \<Rightarrow> request \<Rightarrow> bool" where
  "transition r r' =
     (r' = r \<or>
      (\<not> processed r \<and>
        ((retries r + 1 < 3 \<and> r' = r\<lparr>retries := retries r + 1\<rparr>) \<or>
         (approved_at r' \<noteq> None \<and> r' = r\<lparr>processed := True, approved_at := approved_at r'\<rparr>) \<or>
         (retries r + 1 \<ge> 3 \<and> error r' \<noteq> None \<and>
            r' = r\<lparr>processed := True, error := error r', failed := True\<rparr>))))"

text \<open>The same, and only documents whose id is in \<open>S\<close> change.\<close>

definition touch :: "nat set \<Rightarrow> request \<Rightarrow> request \<Rightarrow> bool" where
  "touch S r r' = (transition r r' \<and> (rid r \<notin> S \<longrightarrow> r' = r))"

text \<open>The store hands out each \<open>_id\<close> once.\<close>

definition ids_ok :: "world \<Rightarrow> bool" where
  "ids_ok w = (distinct (map rid (requests_queue w)) \<and>
               (\<forall>r \<in> set (requests_queue w). rid r < next_id w))"

text \<open>The retry counter stays below the limit; a failed document stopped at 2.\<close>

definition item_inv :: "request \<Rightarrow> bool" where
  "item_inv r = (retries r \<le> 2 \<and> (failed r \<longrightarrow> processed r \<and> retries r = 2))"

definition world_inv :: "world \<Rightarrow> bool" where
  "world_inv w = (ids_ok w \<and> list_all item_inv (requests_queue w))"

section \<open>Reading the trace\<close>

fun sleeps :: "event list \<Rightarrow> nat list" where
  "sleeps [] = []"
| "sleeps (Slept s # evs) = s # sleeps evs"
| "sleeps (Called c r # evs) = sleeps evs"

fun approvals :: "event list \<Rightarrow> (int \<times> int \<times> error option) list" where
  "approvals [] = []"
| "approvals (Called (ApproveChatJoinRequest chat u) r # evs) = (chat, u, r) # approvals evs"
| "approvals (ev # evs) = approvals evs"

fun notifications :: "event list \<Rightarrow> call list" where
  "notifications [] = []"
| "notifications (Called (SendPhoto u) r # evs) = SendPhoto u # notifications evs"
| "notifications (Called (SendMessage u) r # evs) = SendMessage u # notifications evs"
| "notifications (ev # evs) = notifications evs"

text \<open>Deliveries that ended a recipient's turn: the call returned or raised something
  other than a rate-limit signal.\<close>

fun deliveries :: "event list \<Rightarrow> (int \<times> bool) list" where
  "deliveries [] = []"
| "deliveries (Called (CopyMessage u) None # evs) = (u, True) # deliveries evs"
| "deliveries (Called (CopyMessage u) (Some (FloodWait s)) # evs) = deliveries evs"
| "deliveries (Called (CopyMessage u) (Some e) # evs) = (u, False) # deliveries evs"
| "deliveries (ev # evs) = deliveries evs"

text \<open>The durations of the rate-limit signals that answered a delivery.\<close>

fun flood_waits :: "event list \<Rightarrow> nat list" where
  "flood_waits [] = []"
| "flood_waits (Called (CopyMessage u) (Some (FloodWait s)) # evs) = s # flood_waits evs"
| "flood_waits (ev # evs) = flood_waits evs"


text \<open>
  The retries of one recipient's turn: each rate-limit signal followed by a sleep of its
  duration.
\<close>

definition retry_events :: "int \<Rightarrow> nat list \<Rightarrow> event list" where
  "retry_events u ws =
     concat (map (\<lambda>s. [Called (CopyMessage u) (Some (FloodWait s)), Slept s]) ws)"


text \<open>
  The events \<open>evs\<close> take the counters from \<open>c\<close> to \<open>c'\<close> over the recipients \<open>us\<close>: one
  ended delivery per recipient, in order, each counted on its side, and every rate-limit
  signal of a delivery slept.
\<close>

definition accounts :: "int list \<Rightarrow> nat \<times> nat \<Rightarrow> nat \<times> nat \<Rightarrow> event list \<Rightarrow> bool" where
  "accounts us c c' evs =
     (map fst (deliveries evs) = us \<and>
      fst c' = fst c + length (filter snd (deliveries evs)) \<and>
      snd c' = snd c + length (filter (\<lambda>d. \<not> snd d) (deliveries evs)) \<and>
      sleeps evs = flood_waits evs)"

text \<open>The (group, subject) pairs of the approval calls made.\<close>

definition targets :: "event list \<Rightarrow> (int \<times> int) list" where
  "targets evs = map (\<lambda>a. (fst a, fst (snd a))) (approvals evs)"

definition find_one :: "nat \<Rightarrow> request list \<Rightarrow> request option" where
  "find_one i q = find (\<lambda>r. rid r = i) q"

section \<open>Concrete worlds and environments\<close>

definition w0 :: world where
  "w0 = \<lparr>connected = True, clock = 0, trace = [], requests_queue = [],
         stats_collection = [], users_collection = [], next_id = 0\<rparr>"

definition env_ok :: env where
  "env_ok tr c = None"

text \<open>The approval call is answered with a rate-limit signal until the caller has slept.\<close>

definition env_flood_once :: env where
  "env_flood_once tr c =
     (case c of
        ApproveChatJoinRequest chat u \<Rightarrow> if sleeps tr = [] then Some (FloodWait 5) else None
      | _ \<Rightarrow> None)"

text \<open>Every approval call is answered with a rate-limit signal.\<close>

definition env_flood_always :: env where
  "env_flood_always tr c =
     (case c of ApproveChatJoinRequest chat u \<Rightarrow> Some (FloodWait 5) | _ \<Rightarrow> None)"

text \<open>Every approval call fails with the given exception.\<close>

definition env_approve_raises :: "error \<Rightarrow> env" where
  "env_approve_raises e tr c =
     (case c of ApproveChatJoinRequest chat u \<Rightarrow> Some e | _ \<Rightarrow> None)"

text \<open>The store rejects the insert, and the photo is rate-limited until the caller has slept.\<close>

definition env_insert_fails_photo_flood :: env where
  "env_insert_fails_photo_flood tr c =
     (case c of
        QueueInsert \<Rightarrow> Some (OtherError ''AutoReconnect'')
      | SendPhoto u \<Rightarrow> if sleeps tr = [] then Some (FloodWait 5) else None
      | _ \<Rightarrow> None)"



text \<open>The store rejects the insert, and the approval is rate-limited until the caller has
  slept.\<close>

definition env_insert_fails_approve_flood :: env where
  "env_insert_fails_approve_flood tr c =
     (case c of
        QueueInsert \<Rightarrow> Some (OtherError ''AutoReconnect'')
      | ApproveChatJoinRequest chat u \<Rightarrow> if sleeps tr = [] then Some (FloodWait 5) else None
      | _ \<Rightarrow> None)"


definition ann :: join_request where
  "ann = \<lparr>jr_chat_id = 7, jr_chat_title = ''Chat'', jr_user_id = 42,
          jr_user_first_name = ''Ann''\<rparr>"

text \<open>The world after Ann's join request has been queued.\<close>

definition w1_ann :: world where
  "w1_ann = snd (add_request_to_queue env_ok ann w0)"

definition r_ann :: request where
  "r_ann = new_request ann w0"

text \<open>A store with one processed and three pending documents, not in time order.\<close>

definition q3 :: "request list" where
  "q3 = [r_ann\<lparr>rid := 0, timestamp := 30\<rparr>,
         r_ann\<lparr>rid := 1, timestamp := 10, processed := True\<rparr>,
         r_ann\<lparr>rid := 2, timestamp := 20\<rparr>,
         r_ann\<lparr>rid := 3, timestamp := 25\<rparr>]"

section \<open>Facts about the trace and the helpers\<close>

lemma sleeps_append [simp]: "sleeps (xs @ ys) = sleeps xs @ sleeps ys"
  by (induction xs rule: sleeps.induct) auto

lemma approvals_append [simp]: "approvals (xs @ ys) = approvals xs @ approvals ys"
  by (induction xs rule: approvals.induct) auto

lemma notifications_append [simp]:
  "notifications (xs @ ys) = notifications xs @ notifications ys"
  by (induction xs rule: notifications.induct) auto

lemma perform_fst [simp]: "fst (perform env c w) = env (trace w) c"
  by (simp add: perform_def Let_def)

lemma perform_snd [simp]:
  "snd (perform env c w) = w\<lparr>trace := trace w @ [Called c (env (trace w) c)]\<rparr>"
  by (simp add: perform_def Let_def)

lemma perform_eq:
  "perform env c w = (env (trace w) c, w\<lparr>trace := trace w @ [Called c (env (trace w) c)]\<rparr>)"
  by (simp add: perform_def Let_def)

text \<open>The bookkeeping helpers only talk to the store.\<close>

lemma update_stats_sleeps [simp]:
  "sleeps (trace (update_stats env chat u a e w)) = sleeps (trace w)"
  by (simp add: update_stats_def perform_eq Let_def split: option.splits)

lemma save_user_sleeps [simp]:
  "sleeps (trace (snd (save_user env u n w))) = sleeps (trace w)"
  by (simp add: save_user_def perform_eq split: option.splits)

lemma update_stats_approvals [simp]:
  "approvals (trace (update_stats env chat u a e w)) = approvals (trace w)"
  by (simp add: update_stats_def perform_eq Let_def split: option.splits)

lemma save_user_approvals [simp]:
  "approvals (trace (snd (save_user env u n w))) = approvals (trace w)"
  by (simp add: save_user_def perform_eq split: option.splits)

lemma update_stats_notifications [simp]:
  "notifications (trace (update_stats env chat u a e w)) = notifications (trace w)"
  by (simp add: update_stats_def perform_eq Let_def split: option.splits)

lemma save_user_notifications [simp]:
  "notifications (trace (snd (save_user env u n w))) = notifications (trace w)"
  by (simp add: save_user_def perform_eq split: option.splits)

lemma try_block_sleeps [simp]:
  "sleeps (trace (snd (approve_try_block env chat u n w))) = sleeps (trace w)"
  by (simp add: approve_try_block_def perform_eq Let_def split: option.splits)

lemma on_flood_wait_sleeps [simp]:
  "sleeps (trace (snd (on_flood_wait env s chat u n w))) = sleeps (trace w) @ [s]"
  by (simp add: on_flood_wait_def perform_eq sleep_def Let_def split: option.splits)

lemma on_flood_wait_approvals:
  "approvals (trace (snd (on_flood_wait env s chat u n w))) =
     approvals (trace w) @ [(chat, u, env (trace w @ [Slept s]) (ApproveChatJoinRequest chat u))]"
  by (simp add: on_flood_wait_def perform_eq sleep_def Let_def split: option.splits)

lemma on_flood_wait_raises:
  "env (trace w @ [Slept s]) (ApproveChatJoinRequest chat u) = Some e \<Longrightarrow>
   on_flood_wait env s chat u n w =
     (Inl e, w\<lparr>clock := clock w + s,
               trace := trace w @ [Slept s, Called (ApproveChatJoinRequest chat u) (Some e)]\<rparr>)"
  by (simp add: on_flood_wait_def perform_eq sleep_def Let_def)

lemma handle_exception_sleeps:
  "length (sleeps (trace (snd (handle_exception env e chat u n w)))) \<le> Suc (length (sleeps (trace w)))"
  by (cases e) simp_all

section \<open>The approval worker waits at most once\<close>

text \<open>
  Claim C5. One invocation of \<open>approve_single_request\<close> performs at most one rate-limit
  wait. The \<open>try\<close> block itself never sleeps. When the block ends with a rate-limit
  signal of duration \<open>s\<close>, the invocation sleeps exactly \<open>s\<close> and then makes exactly one
  more approval call; whatever that call raises (a second rate-limit signal included) is
  not waited on but leaves the invocation as its outcome, the failed call being the last
  event.
\<close>

theorem approve_single_request_waits_once:
  "sleeps (trace (snd (approve_try_block env chat u n w))) = sleeps (trace w)
   \<and> length (sleeps (trace (snd (approve_single_request env chat u n t w))))
        \<le> Suc (length (sleeps (trace w)))
   \<and> (approve_try_block env chat u n w = (Inl (FloodWait s), w1) \<longrightarrow>
        sleeps (trace (snd (approve_single_request env chat u n t w))) = sleeps (trace w) @ [s]
      \<and> approvals (trace (snd (approve_single_request env chat u n t w))) =
          approvals (trace w1) @
            [(chat, u, env (trace w1 @ [Slept s]) (ApproveChatJoinRequest chat u))]
      \<and> (\<forall>e. env (trace w1 @ [Slept s]) (ApproveChatJoinRequest chat u) = Some e \<longrightarrow>
            approve_single_request env chat u n t w =
              (Inl e, w1\<lparr>clock := clock w1 + s,
                         trace := trace w1 @
                           [Slept s, Called (ApproveChatJoinRequest chat u) (Some e)]\<rparr>)))"
proof (intro conjI impI allI)
  show "sleeps (trace (snd (approve_try_block env chat u n w))) = sleeps (trace w)"
    by simp
next
  obtain r w' where tb: "approve_try_block env chat u n w = (r, w')"
    by (cases "approve_try_block env chat u n w")
  have sl: "sleeps (trace w') = sleeps (trace w)"
    using try_block_sleeps [of env chat u n w] tb by simp
  show "length (sleeps (trace (snd (approve_single_request env chat u n t w))))
          \<le> Suc (length (sleeps (trace w)))"
  proof (cases r)
    case (Inl e)
    then show ?thesis
      using handle_exception_sleeps [of env e chat u n w'] sl tb
      by (simp add: approve_single_request_def)
  next
    case (Inr b)
    then show ?thesis using sl tb by (simp add: approve_single_request_def)
  qed
next
  assume tb: "approve_try_block env chat u n w = (Inl (FloodWait s), w1)"
  have sl: "sleeps (trace w1) = sleeps (trace w)"
    using try_block_sleeps [of env chat u n w] tb by simp
  show "sleeps (trace (snd (approve_single_request env chat u n t w))) = sleeps (trace w) @ [s]"
    using tb sl by (simp add: approve_single_request_def)
  show "approvals (trace (snd (approve_single_request env chat u n t w))) =
          approvals (trace w1) @
            [(chat, u, env (trace w1 @ [Slept s]) (ApproveChatJoinRequest chat u))]"
    using tb by (simp add: approve_single_request_def on_flood_wait_approvals)
  fix e
  assume "env (trace w1 @ [Slept s]) (ApproveChatJoinRequest chat u) = Some e"
  then show "approve_single_request env chat u n t w =
              (Inl e, w1\<lparr>clock := clock w1 + s,
                         trace := trace w1 @
                           [Slept s, Called (ApproveChatJoinRequest chat u) (Some e)]\<rparr>)"
    using tb by (simp add: approve_single_request_def on_flood_wait_raises)
qed

text \<open>
  Two rate-limit signals in a row: the worker sleeps for the first and surfaces the second.
\<close>

lemma try_flood_always:
  "approve_try_block env_flood_always 7 42 ''Ann'' w0 =
     (Inl (FloodWait 5), w0\<lparr>trace := [Called (ApproveChatJoinRequest 7 42) (Some (FloodWait 5))]\<rparr>)"
  by (simp add: approve_try_block_def perform_eq env_flood_always_def w0_def)

theorem approve_single_request_waits_once_witness:
  "approve_try_block env_flood_always 7 42 ''Ann'' w0 =
     (Inl (FloodWait 5), w0\<lparr>trace := [Called (ApproveChatJoinRequest 7 42) (Some (FloodWait 5))]\<rparr>)
   \<and> sleeps (trace (snd (approve_single_request env_flood_always 7 42 ''Ann'' ''Chat'' w0))) = [5]
   \<and> fst (approve_single_request env_flood_always 7 42 ''Ann'' ''Chat'' w0) = Inl (FloodWait 5)
   \<and> approvals (trace (snd (approve_single_request env_flood_always 7 42 ''Ann'' ''Chat'' w0))) =
       [(7, 42, Some (FloodWait 5)), (7, 42, Some (FloodWait 5))]"
  using approve_single_request_waits_once [of env_flood_always 7 42 "''Ann''" w0 "''Chat''" 5
      "w0\<lparr>trace := [Called (ApproveChatJoinRequest 7 42) (Some (FloodWait 5))]\<rparr>"]
    try_flood_always
  by (simp add: env_flood_always_def w0_def)

section \<open>What one invocation of the worker touches\<close>

lemma try_block_approvals [simp]:
  "approvals (trace (snd (approve_try_block env chat u n w))) =
     approvals (trace w) @ [(chat, u, env (trace w) (ApproveChatJoinRequest chat u))]"
  by (simp add: approve_try_block_def perform_eq Let_def split: option.splits)

lemma try_block_first_call_raises:
  "env (trace w) (ApproveChatJoinRequest chat u) = Some e \<Longrightarrow>
   approve_try_block env chat u n w =
     (Inl e, w\<lparr>trace := trace w @ [Called (ApproveChatJoinRequest chat u) (Some e)]\<rparr>)"
  by (simp add: approve_try_block_def perform_eq)

text \<open>Fields the worker and its helpers leave alone.\<close>

lemma update_stats_fields [simp]:
  "requests_queue (update_stats env chat u a e w) = requests_queue w"
  "connected (update_stats env chat u a e w) = connected w"
  "next_id (update_stats env chat u a e w) = next_id w"
  "clock (update_stats env chat u a e w) = clock w"
  by (simp_all add: update_stats_def perform_eq Let_def split: option.splits)

lemma save_user_fields [simp]:
  "requests_queue (snd (save_user env u n w)) = requests_queue w"
  "connected (snd (save_user env u n w)) = connected w"
  "next_id (snd (save_user env u n w)) = next_id w"
  "clock (snd (save_user env u n w)) = clock w"
  by (simp_all add: save_user_def perform_eq split: option.splits)

lemma on_flood_wait_fields [simp]:
  "requests_queue (snd (on_flood_wait env s chat u n w)) = requests_queue w"
  "connected (snd (on_flood_wait env s chat u n w)) = connected w"
  "next_id (snd (on_flood_wait env s chat u n w)) = next_id w"
  by (simp_all add: on_flood_wait_def perform_eq sleep_def Let_def split: option.splits)

lemma handle_exception_fields [simp]:
  "requests_queue (snd (handle_exception env e chat u n w)) = requests_queue w"
  "connected (snd (handle_exception env e chat u n w)) = connected w"
  "next_id (snd (handle_exception env e chat u n w)) = next_id w"
  by (cases e; simp)+

lemma try_block_fields [simp]:
  "requests_queue (snd (approve_try_block env chat u n w)) = requests_queue w"
  "connected (snd (approve_try_block env chat u n w)) = connected w"
  "next_id (snd (approve_try_block env chat u n w)) = next_id w"
  by (simp_all add: approve_try_block_def perform_eq Let_def split: option.splits)

lemma approve_single_request_fields [simp]:
  "requests_queue (snd (approve_single_request env chat u n t w)) = requests_queue w"
  "connected (snd (approve_single_request env chat u n t w)) = connected w"
  "next_id (snd (approve_single_request env chat u n t w)) = next_id w"
proof -
  obtain r w' where tb: "approve_try_block env chat u n w = (r, w')"
    by (cases "approve_try_block env chat u n w")
  have "requests_queue w' = requests_queue w" "connected w' = connected w" "next_id w' = next_id w"
    using try_block_fields [of env chat u n w] tb by simp_all
  then show "requests_queue (snd (approve_single_request env chat u n t w)) = requests_queue w"
    "connected (snd (approve_single_request env chat u n t w)) = connected w"
    "next_id (snd (approve_single_request env chat u n t w)) = next_id w"
    using tb by (cases r; simp add: approve_single_request_def)+
qed

text \<open>How many approval calls one invocation makes: one, and one more per wait.\<close>

lemma handle_exception_targets:
  "targets (trace (snd (handle_exception env e chat u n w))) =
     targets (trace w) @
       replicate (length (sleeps (trace (snd (handle_exception env e chat u n w))))
                    - length (sleeps (trace w))) (chat, u)"
  by (cases e) (simp_all add: targets_def on_flood_wait_approvals)

lemma approve_single_request_targets:
  "targets (trace (snd (approve_single_request env chat u n t w))) =
     targets (trace w) @
       replicate (Suc (length (sleeps (trace (snd (approve_single_request env chat u n t w))))
                    - length (sleeps (trace w)))) (chat, u)"
proof -
  obtain r w' where tb: "approve_try_block env chat u n w = (r, w')"
    by (cases "approve_try_block env chat u n w")
  have sl: "sleeps (trace w') = sleeps (trace w)"
    using try_block_sleeps [of env chat u n w] tb by simp
  have tg: "targets (trace w') = targets (trace w) @ [(chat, u)]"
    using try_block_approvals [of env chat u n w] tb by (simp add: targets_def)
  show ?thesis
  proof (cases r)
    case (Inl e)
    have "length (sleeps (trace w)) \<le> length (sleeps (trace (snd (handle_exception env e chat u n w'))))"
      using sl by (cases e) simp_all
    then show ?thesis
      using handle_exception_targets [of env e chat u n w'] tb sl tg Inl
      by (simp add: approve_single_request_def Suc_diff_le replicate_app_Cons_same)
  next
    case (Inr b)
    then show ?thesis using tb sl tg by (simp add: approve_single_request_def)
  qed
qed

lemma approve_single_request_sleeps_le:
  "length (sleeps (trace (snd (approve_single_request env chat u n t w))))
     \<le> Suc (length (sleeps (trace w)))"
proof -
  obtain r w' where tb: "approve_try_block env chat u n w = (r, w')"
    by (cases "approve_try_block env chat u n w")
  have sl: "sleeps (trace w') = sleeps (trace w)"
    using try_block_sleeps [of env chat u n w] tb by simp
  show ?thesis
  proof (cases r)
    case (Inl e)
    then show ?thesis
      using handle_exception_sleeps [of env e chat u n w'] sl tb
      by (simp add: approve_single_request_def)
  next
    case (Inr b)
    then show ?thesis using sl tb by (simp add: approve_single_request_def)
  qed
qed

lemma find_one_update_one:
  "rid (f r) = rid r \<Longrightarrow> find_one (rid r) q = Some r \<Longrightarrow>
   find_one (rid r) (update_one (rid r) f q) = Some (f r)"
  by (induction q) (auto simp: find_one_def)

section \<open>Success after a rate-limit wait\<close>

text \<open>
  Claim C3 says that an approval that succeeds on the retry after a rate-limit wait is
  followed by the same steps as an immediate success: the promotional photo, the
  confirmation message, the statistics record with \<open>approved = True\<close>, and \<open>True\<close> as
  result. Evaluated on such a run (first approval call rate-limited for 5 seconds, second
  one accepted), the worker records the statistics and returns \<open>True\<close> but sends neither
  message; on an immediate success it sends both.
\<close>

theorem retried_approval_sends_no_messages:
  "approve_single_request env_flood_once 7 42 ''Ann'' ''Chat'' w0 =
     (Inr True,
      w0\<lparr>clock := 5,
         trace := [Called (ApproveChatJoinRequest 7 42) (Some (FloodWait 5)), Slept 5,
                   Called (ApproveChatJoinRequest 7 42) None, Called StatsInsert None,
                   Called (ChannelsUpdate 7) None, Called (UsersUpdate 42) None],
         stats_collection := [\<lparr>stat_timestamp = 5, stat_chat_id = 7, stat_user_id = 42,
                                stat_approved = True, stat_error = None\<rparr>],
         users_collection := [(42, ''Ann'')]\<rparr>)
   \<and> notifications (trace (snd (approve_single_request env_flood_once 7 42 ''Ann'' ''Chat'' w0))) = []
   \<and> notifications (trace (snd (approve_single_request env_ok 7 42 ''Ann'' ''Chat'' w0))) =
       [SendPhoto 42, SendMessage 42]"
  by (simp add: approve_single_request_def approve_try_block_def on_flood_wait_def
      update_stats_def save_user_def perform_eq sleep_def env_flood_once_def env_ok_def
      w0_def Let_def)

section \<open>What the queue processor does with a failed approval\<close>

lemma w1_ann_eq:
  "w1_ann = w0\<lparr>trace := [Called QueueInsert None], requests_queue := [r_ann], next_id := 1\<rparr>"
  by (simp add: w1_ann_def add_request_to_queue_def perform_eq env_ok_def w0_def r_ann_def
      new_request_def)

lemma r_ann_eq:
  "r_ann = \<lparr>rid = 0, timestamp = 0, chat_id = 7, user_id = 42, user_first_name = ''Ann'',
            chat_title = ''Chat'', processed = False, retries = 0, failed = False,
            error = None, approved_at = None\<rparr>"
  by (simp add: r_ann_def new_request_def ann_def w0_def)

lemma fetch_w1_ann: "fetch_batch 10 [r_ann] = [r_ann]"
  by (simp add: fetch_batch_def r_ann_eq)

text \<open>
  Claim C1 at a concrete input: Ann's request is pending with \<open>retries = 0\<close> and the
  approval call raises \<open>UserDeactivated\<close>. The claim asks for an item marked Failed with
  the error recorded, and not marked Processed. The worker catches the exception and
  returns \<open>False\<close>, the processor does not look at that value, and after one pass the item
  carries \<open>processed = True\<close> and \<open>approved_at\<close>, and neither \<open>failed\<close> nor an \<open>error\<close>:
  it is marked Processed and not Failed.
\<close>

theorem unreachable_subject_marked_processed:
  "env_approve_raises UserDeactivated [Called QueueInsert None, Called QueueFind None]
       (ApproveChatJoinRequest 7 42) = Some UserDeactivated
   \<and> requests_queue w1_ann =
       [\<lparr>rid = 0, timestamp = 0, chat_id = 7, user_id = 42, user_first_name = ''Ann'',
         chat_title = ''Chat'', processed = False, retries = 0, failed = False,
         error = None, approved_at = None\<rparr>]
   \<and> requests_queue (process_queue (env_approve_raises UserDeactivated) 1 w1_ann) =
       [\<lparr>rid = 0, timestamp = 0, chat_id = 7, user_id = 42, user_first_name = ''Ann'',
         chat_title = ''Chat'', processed = True, retries = 0, failed = False,
         error = None, approved_at = Some 0\<rparr>]"
  by (simp add: w1_ann_eq fetch_w1_ann process_queue_iteration_def find_pending_def
      process_request_def queue_update_def approve_single_request_def approve_try_block_def
      update_stats_def perform_eq sleep_def env_approve_raises_def mark_processed_def
      w0_def Let_def) (simp add: r_ann_eq)


text \<open>
  Claim C2 at a concrete input: Ann's request is pending with \<open>retries = 0\<close> and the
  approval call raises an exception that is neither a rate-limit signal nor one of the
  classes with a clause of their own. The claim asks for \<open>retries = 1\<close> and a pending item.
  The worker catches the exception and returns \<open>False\<close>, the processor does not look at
  that value, and the item ends with \<open>processed = True\<close>, \<open>approved_at\<close> set, \<open>retries = 0\<close>
  and no error; only the statistics record holds the error.
\<close>

theorem other_error_marked_processed:
  "requests_queue (process_queue (env_approve_raises (OtherError ''USER_CHANNELS_TOO_MUCH'')) 1 w1_ann) =
       [\<lparr>rid = 0, timestamp = 0, chat_id = 7, user_id = 42, user_first_name = ''Ann'',
         chat_title = ''Chat'', processed = True, retries = 0, failed = False,
         error = None, approved_at = Some 0\<rparr>]
   \<and> stats_collection (process_queue (env_approve_raises (OtherError ''USER_CHANNELS_TOO_MUCH'')) 1 w1_ann) =
       [\<lparr>stat_timestamp = 0, stat_chat_id = 7, stat_user_id = 42, stat_approved = False,
         stat_error = Some (OtherError ''USER_CHANNELS_TOO_MUCH'')\<rparr>]"
  by (simp add: w1_ann_eq fetch_w1_ann process_queue_iteration_def find_pending_def
      process_request_def queue_update_def approve_single_request_def approve_try_block_def
      update_stats_def perform_eq sleep_def env_approve_raises_def mark_processed_def
      w0_def Let_def) (simp add: r_ann_eq)

text \<open>
  The same for every environment and every stored work item. When the approval call raises
  \<open>UserDeactivated\<close>, \<open>PeerIdInvalid\<close> or \<open>ChatAdminRequired\<close>, the worker makes no further
  approval call and does not sleep, hands the error to \<open>update_stats\<close> with
  \<open>approved = False\<close> and returns \<open>False\<close> without raising. The processor's single store
  update then (when the store accepts it) takes the item out of the pending set whatever
  its \<open>retries\<close>, and leaves \<open>retries\<close> as it was. With a connected store that accepts the
  insert, the statistics collection gains the record with the error.
\<close>

lemma nonretryable_failure_not_retried:
  assumes e: "e \<in> {UserDeactivated, PeerIdInvalid, ChatAdminRequired}"
    and raised: "env (trace w) (ApproveChatJoinRequest (chat_id r) (user_id r)) = Some e"
    and store: "\<And>tr. env tr (QueueUpdate (rid r)) = None"
    and stored: "find_one (rid r) (requests_queue w) = Some r"
  shows "approve_single_request env (chat_id r) (user_id r) (user_first_name r) (chat_title r) w =
           (Inr False,
            update_stats env (chat_id r) (user_id r) False (Some e)
              (w\<lparr>trace := trace w @
                   [Called (ApproveChatJoinRequest (chat_id r) (user_id r)) (Some e)]\<rparr>))
       \<and> approvals (trace (snd (process_request env r w))) =
           approvals (trace w) @ [(chat_id r, user_id r, Some e)]
       \<and> sleeps (trace (snd (process_request env r w))) = sleeps (trace w)
       \<and> fst (process_request env r w) = None
       \<and> (\<exists>x. find_one (rid r) (requests_queue (snd (process_request env r w))) = Some x
              \<and> processed x \<and> retries x = retries r)
       \<and> (connected w \<and> env (trace w @
              [Called (ApproveChatJoinRequest (chat_id r) (user_id r)) (Some e)]) StatsInsert = None
            \<longrightarrow> stats_collection (snd (process_request env r w)) =
                  stats_collection w @
                    [\<lparr>stat_timestamp = clock w, stat_chat_id = chat_id r,
                      stat_user_id = user_id r, stat_approved = False, stat_error = Some e\<rparr>])"
proof -
  let ?w1 = "w\<lparr>trace := trace w @
                [Called (ApproveChatJoinRequest (chat_id r) (user_id r)) (Some e)]\<rparr>"
  let ?w2 = "update_stats env (chat_id r) (user_id r) False (Some e) ?w1"
  have tb: "approve_try_block env (chat_id r) (user_id r) (user_first_name r) w = (Inl e, ?w1)"
    using raised by (rule try_block_first_call_raises)
  have he: "handle_exception env e (chat_id r) (user_id r) (user_first_name r) ?w1 = (Inr False, ?w2)"
    using e by auto
  have worker: "approve_single_request env (chat_id r) (user_id r) (user_first_name r)
                  (chat_title r) w = (Inr False, ?w2)"
    using tb he by (simp add: approve_single_request_def)
  have pr: "process_request env r w =
              (None, ?w2\<lparr>trace := trace ?w2 @ [Called (QueueUpdate (rid r)) None],
                         requests_queue := update_one (rid r) (mark_processed (clock ?w2))
                                             (requests_queue ?w2)\<rparr>)"
    using worker store by (simp add: process_request_def queue_update_def perform_eq)
  have found: "find_one (rid r) (requests_queue (snd (process_request env r w))) =
                 Some (mark_processed (clock ?w2) r)"
    using stored by (simp add: pr find_one_update_one mark_processed_def)
  have stats: "stats_collection (snd (process_request env r w)) =
                  stats_collection w @
                    [\<lparr>stat_timestamp = clock w, stat_chat_id = chat_id r,
                      stat_user_id = user_id r, stat_approved = False, stat_error = Some e\<rparr>]"
    if "connected w" "env (trace w @
              [Called (ApproveChatJoinRequest (chat_id r) (user_id r)) (Some e)]) StatsInsert = None"
    using that by (simp add: pr update_stats_def perform_eq)
  show ?thesis
    using worker found stats by (simp add: pr mark_processed_def)
qed

lemma nonretryable_failure_not_retried_example:
  "find_one 0 (requests_queue w1_ann) = Some r_ann
   \<and> fst (approve_single_request (env_approve_raises ChatAdminRequired) 7 42 ''Ann'' ''Chat'' w1_ann)
       = Inr False
   \<and> (\<exists>x. find_one 0 (requests_queue (snd (process_request (env_approve_raises ChatAdminRequired)
                r_ann w1_ann))) = Some x \<and> processed x \<and> retries x = 0)
   \<and> stats_collection (snd (process_request (env_approve_raises ChatAdminRequired) r_ann w1_ann)) =
        [\<lparr>stat_timestamp = 0, stat_chat_id = 7, stat_user_id = 42, stat_approved = False,
          stat_error = Some ChatAdminRequired\<rparr>]"
proof -
  have s: "find_one (rid r_ann) (requests_queue w1_ann) = Some r_ann"
    by (simp add: w1_ann_eq find_one_def)
  have r: "env_approve_raises ChatAdminRequired (trace w1_ann)
             (ApproveChatJoinRequest (chat_id r_ann) (user_id r_ann)) = Some ChatAdminRequired"
    by (simp add: env_approve_raises_def)
  have u: "\<And>tr. env_approve_raises ChatAdminRequired tr (QueueUpdate (rid r_ann)) = None"
    by (simp add: env_approve_raises_def)
  show ?thesis
    using nonretryable_failure_not_retried [of ChatAdminRequired
        "env_approve_raises ChatAdminRequired" w1_ann r_ann, OF _ r u s]
    by (simp add: r_ann_eq w1_ann_eq w0_def env_approve_raises_def find_one_def)
qed

section \<open>Enqueueing\<close>

text \<open>
  Claim C10. Without a database (\<open>requests_queue is None\<close>) \<open>add_request_to_queue\<close>
  returns at once: the world is unchanged, so no work item is inserted and no call is
  made, the fallback approval included.
\<close>

theorem no_database_drops_event:
  "\<not> connected w \<Longrightarrow> add_request_to_queue env jr w = (Inr (), w)"
  by (simp add: add_request_to_queue_def)

theorem no_database_drops_event_witness:
  "\<not> connected (w0\<lparr>connected := False\<rparr>)
   \<and> add_request_to_queue env_ok ann (w0\<lparr>connected := False\<rparr>) = (Inr (), w0\<lparr>connected := False\<rparr>)"
  using no_database_drops_event [of "w0\<lparr>connected := False\<rparr>" env_ok ann]
  by simp

text \<open>
  What the enqueue path does when the store rejects the insert, for every environment:
  \<open>add_request_to_queue\<close> lets nothing escape to its caller, inserts no work item, and does exactly one thing: one
  invocation of \<open>approve_single_request\<close> for the same group and subject, whose result
  or exception it drops. Within that invocation the approval call is made once, and once
  more for each rate-limit wait, of which there is at most one; every approval call is for
  that group and subject.
\<close>

lemma enqueue_failure_falls_back_once:
  assumes conn: "connected w" and ins: "env (trace w) QueueInsert = Some e"
  shows "add_request_to_queue env jr w =
           (Inr (), snd (approve_single_request env (jr_chat_id jr) (jr_user_id jr)
                          (jr_user_first_name jr) (jr_chat_title jr)
                          (w\<lparr>trace := trace w @ [Called QueueInsert (Some e)]\<rparr>)))
       \<and> requests_queue (snd (add_request_to_queue env jr w)) = requests_queue w
       \<and> length (sleeps (trace (snd (add_request_to_queue env jr w))))
            \<le> Suc (length (sleeps (trace w)))
       \<and> targets (trace (snd (add_request_to_queue env jr w))) =
           targets (trace w) @
             replicate (Suc (length (sleeps (trace (snd (add_request_to_queue env jr w))))
                          - length (sleeps (trace w))))
               (jr_chat_id jr, jr_user_id jr)"
proof -
  let ?w1 = "w\<lparr>trace := trace w @ [Called QueueInsert (Some e)]\<rparr>"
  let ?R = "approve_single_request env (jr_chat_id jr) (jr_user_id jr)
              (jr_user_first_name jr) (jr_chat_title jr) ?w1"
  have eq: "add_request_to_queue env jr w = (Inr (), snd ?R)"
    using conn ins
    by (cases ?R) (auto simp: add_request_to_queue_def perform_eq split: sum.splits)
  have sl: "sleeps (trace ?w1) = sleeps (trace w)" and tg: "targets (trace ?w1) = targets (trace w)"
    by (simp_all add: targets_def)
  show ?thesis
    using approve_single_request_sleeps_le [of env "jr_chat_id jr" "jr_user_id jr"
        "jr_user_first_name jr" "jr_chat_title jr" ?w1]
      approve_single_request_targets [of env "jr_chat_id jr" "jr_user_id jr"
        "jr_user_first_name jr" "jr_chat_title jr" ?w1]
    unfolding eq sl tg by simp
qed

lemma enqueue_failure_falls_back_once_example:
  "connected w0
   \<and> env_insert_fails_photo_flood (trace w0) QueueInsert = Some (OtherError ''AutoReconnect'')
   \<and> add_request_to_queue env_insert_fails_photo_flood ann w0 =
           (Inr (), snd (approve_single_request env_insert_fails_photo_flood (jr_chat_id ann)
                          (jr_user_id ann) (jr_user_first_name ann) (jr_chat_title ann)
                          (w0\<lparr>trace := trace w0 @
                                [Called QueueInsert (Some (OtherError ''AutoReconnect''))]\<rparr>)))
   \<and> requests_queue (snd (add_request_to_queue env_insert_fails_photo_flood ann w0)) =
       requests_queue w0
   \<and> length (sleeps (trace (snd (add_request_to_queue env_insert_fails_photo_flood ann w0))))
        \<le> Suc (length (sleeps (trace w0)))
   \<and> targets (trace (snd (add_request_to_queue env_insert_fails_photo_flood ann w0))) =
       targets (trace w0) @
         replicate (Suc (length (sleeps (trace (snd (add_request_to_queue
                      env_insert_fails_photo_flood ann w0))))
                      - length (sleeps (trace w0))))
           (jr_chat_id ann, jr_user_id ann)"
proof -
  have c: "connected w0" by (simp add: w0_def)
  have i: "env_insert_fails_photo_flood (trace w0) QueueInsert = Some (OtherError ''AutoReconnect'')"
    by (simp add: env_insert_fails_photo_flood_def)
  show ?thesis
    using enqueue_failure_falls_back_once [of w0 env_insert_fails_photo_flood
        "OtherError ''AutoReconnect''" ann, OF c i] c i
    by blast
qed

text \<open>
  When the approval call itself is rate-limited, the retry after the wait is the only
  accepted approval call: the subject is approved once.
\<close>

lemma fallback_after_rate_limited_approval:
  "approvals (trace (snd (add_request_to_queue env_insert_fails_approve_flood ann w0))) =
       [(7, 42, Some (FloodWait 5)), (7, 42, None)]"
  by (simp add: add_request_to_queue_def approve_single_request_def approve_try_block_def
      on_flood_wait_def update_stats_def save_user_def perform_eq sleep_def
      env_insert_fails_approve_flood_def ann_def w0_def Let_def)

text \<open>
  Claim C8 at a concrete input: the store rejects the insert, the approval call is
  accepted, and the photo that follows is rate-limited. The claim asks for a subject
  approved at most once, with no duplicate approval call. The \<open>except FloodWait\<close> clause,
  written for a rate-limited approval, also catches the signal of the photo, since the
  photo is sent inside the same \<open>try\<close>: the fallback sleeps and makes a second approval
  call for the same subject after the first one was accepted.
\<close>

theorem fallback_repeats_accepted_approval:
  "env_insert_fails_photo_flood (trace w0) QueueInsert = Some (OtherError ''AutoReconnect'')
   \<and> trace (snd (add_request_to_queue env_insert_fails_photo_flood ann w0)) =
       [Called QueueInsert (Some (OtherError ''AutoReconnect'')),
        Called (ApproveChatJoinRequest 7 42) None,
        Called (SendPhoto 42) (Some (FloodWait 5)), Slept 5,
        Called (ApproveChatJoinRequest 7 42) None, Called StatsInsert None,
        Called (ChannelsUpdate 7) None, Called (UsersUpdate 42) None]
   \<and> approvals (trace (snd (add_request_to_queue env_insert_fails_photo_flood ann w0))) =
       [(7, 42, None), (7, 42, None)]"
  by (simp add: add_request_to_queue_def approve_single_request_def approve_try_block_def
      on_flood_wait_def update_stats_def save_user_def perform_eq sleep_def
      env_insert_fails_photo_flood_def ann_def w0_def Let_def)

section \<open>Fetching a batch\<close>

text \<open>
  Claim C7. For every limit \<open>n\<close> and every store content, the batch has at most \<open>n\<close>
  documents, each of them a stored document with \<open>processed = False\<close>, in ascending order
  of \<open>timestamp\<close>. When nothing is pending and the store answers, the query returns the
  empty list and not an error, and the pass of the processor only sleeps one second: the
  store is untouched.
\<close>

theorem fetch_batch_bounded_pending_sorted:
  "length (fetch_batch n q) \<le> n
   \<and> (\<forall>r \<in> set (fetch_batch n q). r \<in> set q \<and> \<not> processed r)
   \<and> sorted (map timestamp (fetch_batch n q))
   \<and> (env (trace w) QueueFind = None \<and> (\<forall>r \<in> set (requests_queue w). processed r) \<longrightarrow>
        find_pending env n w = (Inr [], w\<lparr>trace := trace w @ [Called QueueFind None]\<rparr>)
      \<and> process_queue_iteration env w =
          w\<lparr>clock := clock w + 1, trace := trace w @ [Called QueueFind None, Slept 1]\<rparr>)"
proof (intro conjI ballI impI)
  show "length (fetch_batch n q) \<le> n" by (simp add: fetch_batch_def)
next
  fix r assume "r \<in> set (fetch_batch n q)"
  then have "r \<in> set (sort_key timestamp (filter (\<lambda>r. \<not> processed r) q))"
    unfolding fetch_batch_def by (rule in_set_takeD)
  then show "r \<in> set q" "\<not> processed r" by simp_all
next
  have "sorted (take n (map timestamp (sort_key timestamp (filter (\<lambda>r. \<not> processed r) q))))"
    by (rule sorted_wrt_take) (rule sorted_sort_key)
  then show "sorted (map timestamp (fetch_batch n q))"
    by (simp add: fetch_batch_def take_map)
next
  assume h: "env (trace w) QueueFind = None \<and> (\<forall>r \<in> set (requests_queue w). processed r)"
  then have empty: "filter (\<lambda>r. \<not> processed r) (requests_queue w) = []"
    by (simp add: filter_empty_conv)
  show fp: "find_pending env n w = (Inr [], w\<lparr>trace := trace w @ [Called QueueFind None]\<rparr>)"
    using h empty by (simp add: find_pending_def perform_eq fetch_batch_def)
  have "find_pending env 10 w = (Inr [], w\<lparr>trace := trace w @ [Called QueueFind None]\<rparr>)"
    using h empty by (simp add: find_pending_def perform_eq fetch_batch_def)
  then show "process_queue_iteration env w =
          w\<lparr>clock := clock w + 1, trace := trace w @ [Called QueueFind None, Slept 1]\<rparr>"
    by (simp add: process_queue_iteration_def sleep_def)
qed

lemma fetch_q3: "fetch_batch 2 q3 = [r_ann\<lparr>rid := 2, timestamp := 20\<rparr>, r_ann\<lparr>rid := 3, timestamp := 25\<rparr>]"
  by (simp add: fetch_batch_def q3_def r_ann_eq)

theorem fetch_batch_bounded_pending_sorted_witness:
  "fetch_batch 2 q3 = [r_ann\<lparr>rid := 2, timestamp := 20\<rparr>, r_ann\<lparr>rid := 3, timestamp := 25\<rparr>]
   \<and> length (fetch_batch 2 q3) \<le> 2
   \<and> r_ann\<lparr>rid := 2, timestamp := 20\<rparr> \<in> set q3
   \<and> \<not> processed (r_ann\<lparr>rid := 2, timestamp := 20\<rparr>)
   \<and> sorted (map timestamp (fetch_batch 2 q3))
   \<and> env_ok (trace w0) QueueFind = None
   \<and> find_pending env_ok 2 w0 = (Inr [], w0\<lparr>trace := trace w0 @ [Called QueueFind None]\<rparr>)
   \<and> process_queue_iteration env_ok w0 =
          w0\<lparr>clock := clock w0 + 1, trace := trace w0 @ [Called QueueFind None, Slept 1]\<rparr>"
proof -
  have h: "env_ok (trace w0) QueueFind = None \<and> (\<forall>r \<in> set (requests_queue w0). processed r)"
    by (simp add: env_ok_def w0_def)
  have m: "r_ann\<lparr>rid := 2, timestamp := 20\<rparr> \<in> set (fetch_batch 2 q3)"
    by (simp add: fetch_q3)
  show ?thesis
    using fetch_batch_bounded_pending_sorted [of 2 q3 env_ok w0] h m fetch_q3
    by blast
qed

section \<open>One pass of the queue processor\<close>

lemma transition_rid: "transition r r' \<Longrightarrow> rid r' = rid r"
  by (auto simp: transition_def)

lemma transition_refl [simp]: "transition r r"
  by (simp add: transition_def)

lemma touch_refl [simp]: "touch S r r"
  by (simp add: touch_def)

lemma list_all2_touch_refl [simp]: "list_all2 (touch S) q q"
  by (simp add: list_all2_refl)

lemma transition_inc_retries:
  "\<not> processed r \<Longrightarrow> retries r + 1 < 3 \<Longrightarrow> transition r (inc_retries r)"
  by (simp add: transition_def inc_retries_def)

lemma transition_mark_processed:
  "\<not> processed r \<Longrightarrow> transition r (mark_processed now r)"
  by (simp add: transition_def mark_processed_def)

lemma transition_mark_failed:
  "\<not> processed r \<Longrightarrow> retries r + 1 \<ge> 3 \<Longrightarrow> transition r (mark_failed e r)"
  by (simp add: transition_def mark_failed_def)

text \<open>\<open>update_one\<close> changes the first document with the id and nothing else.\<close>

lemma update_one_touch:
  "find_one i q = Some r \<Longrightarrow> transition r (f r) \<Longrightarrow> list_all2 (touch {i}) q (update_one i f q)"
proof (induction q)
  case Nil
  then show ?case by simp
next
  case (Cons x q)
  show ?case
  proof (cases "rid x = i")
    case True
    then have "x = r" using Cons.prems(1) by (simp add: find_one_def)
    then have "touch {i} x (f x)" using True Cons.prems(2) by (simp add: touch_def)
    then show ?thesis using True by simp
  next
    case False
    then have "find_one i q = Some r" using Cons.prems(1) by (simp add: find_one_def)
    then show ?thesis using False Cons.IH Cons.prems(2) by simp
  qed
qed

lemma find_one_distinct:
  "distinct (map rid q) \<Longrightarrow> b \<in> set q \<Longrightarrow> find_one (rid b) q = Some b"
  by (induction q) (auto simp: find_one_def)

lemma find_one_touch_other:
  "list_all2 (touch S) q q' \<Longrightarrow> j \<notin> S \<Longrightarrow> find_one j q' = find_one j q"
proof (induction q q' rule: list_all2_induct)
  case Nil
  then show ?case by simp
next
  case (Cons x xs y ys)
  have "rid y = rid x" using Cons.hyps(1) by (simp add: touch_def transition_rid)
  moreover have "rid x = j \<Longrightarrow> y = x" using Cons.hyps(1) Cons.prems by (auto simp: touch_def)
  ultimately show ?case using Cons by (auto simp: find_one_def)
qed

lemma touch_compose:
  "touch {h} a b \<Longrightarrow> touch T b c \<Longrightarrow> h \<notin> T \<Longrightarrow> touch (insert h T) a c"
  by (auto simp: touch_def dest: transition_rid)

lemma list_all2_touch_compose:
  assumes "list_all2 (touch {h}) q q1" and "list_all2 (touch T) q1 q2" and "h \<notin> T"
  shows "list_all2 (touch (insert h T)) q q2"
  using assms(1,2)
  by (rule list_all2_trans [rotated]) (rule touch_compose [OF _ _ assms(3)])

lemma touch_mono: "touch S a b \<Longrightarrow> S \<subseteq> T \<Longrightarrow> touch T a b"
  by (auto simp: touch_def)

lemma list_all2_touch_mono:
  "list_all2 (touch S) q q' \<Longrightarrow> S \<subseteq> T \<Longrightarrow> list_all2 (touch T) q q'"
  by (erule list_all2_mono) (rule touch_mono)

text \<open>The store update of the processor, with or without effect.\<close>

lemma queue_update_touch:
  "find_one i (requests_queue w) = Some r \<Longrightarrow> transition r (f r) \<Longrightarrow>
   list_all2 (touch {i}) (requests_queue w) (requests_queue (snd (queue_update env i f w)))"
  by (simp add: queue_update_def perform_eq update_one_touch split: option.splits)

lemma queue_update_fields [simp]:
  "connected (snd (queue_update env i f w)) = connected w"
  "next_id (snd (queue_update env i f w)) = next_id w"
  by (simp_all add: queue_update_def perform_eq split: option.splits)

lemma queue_update_raises:
  "queue_update env i f w = (Some e, w') \<Longrightarrow> requests_queue w' = requests_queue w"
  by (auto simp: queue_update_def perform_eq split: option.splits)

lemma on_request_exception_touch:
  assumes "find_one (rid b) (requests_queue w) = Some b" and "\<not> processed b"
  shows "list_all2 (touch {rid b}) (requests_queue w)
           (requests_queue (snd (on_request_exception env b e w)))"
  using assms
  by (simp add: on_request_exception_def Let_def queue_update_touch
      transition_mark_failed transition_inc_retries)

lemma on_request_exception_fields [simp]:
  "connected (snd (on_request_exception env b e w)) = connected w"
  "next_id (snd (on_request_exception env b e w)) = next_id w"
  by (simp_all add: on_request_exception_def Let_def)

lemma process_request_touch:
  assumes f: "find_one (rid b) (requests_queue w) = Some b" and p: "\<not> processed b"
  shows "list_all2 (touch {rid b}) (requests_queue w)
           (requests_queue (snd (process_request env b w)))"
proof -
  obtain res w1 where a: "approve_single_request env (chat_id b) (user_id b)
      (user_first_name b) (chat_title b) w = (res, w1)"
    by (cases "approve_single_request env (chat_id b) (user_id b)
      (user_first_name b) (chat_title b) w")
  have q1: "requests_queue w1 = requests_queue w"
    using approve_single_request_fields(1) [of env "chat_id b" "user_id b"
        "user_first_name b" "chat_title b" w] a by simp
  show ?thesis
  proof (cases res)
    case (Inl e)
    then show ?thesis
      using a q1 on_request_exception_touch [of b w1 env e] f p
      by (simp add: process_request_def)
  next
    case (Inr ok)
    obtain r2 w2 where u: "queue_update env (rid b) (mark_processed (clock w1)) w1 = (r2, w2)"
      by (cases "queue_update env (rid b) (mark_processed (clock w1)) w1")
    show ?thesis
    proof (cases r2)
      case None
      have "list_all2 (touch {rid b}) (requests_queue w1) (requests_queue w2)"
        using queue_update_touch [of "rid b" w1 b "mark_processed (clock w1)" env] u f p q1
        by (simp add: transition_mark_processed)
      then show ?thesis using a Inr u None q1 by (simp add: process_request_def)
    next
      case (Some e)
      have "requests_queue w2 = requests_queue w"
        using queue_update_raises u Some q1 by fastforce
      then show ?thesis
        using a Inr u Some on_request_exception_touch [of b w2 env e] f p
        by (simp add: process_request_def)
    qed
  qed
qed

lemma process_request_fields [simp]:
  "connected (snd (process_request env b w)) = connected w"
  "next_id (snd (process_request env b w)) = next_id w"
proof -
  obtain res w1 where a: "approve_single_request env (chat_id b) (user_id b)
      (user_first_name b) (chat_title b) w = (res, w1)"
    by (cases "approve_single_request env (chat_id b) (user_id b)
      (user_first_name b) (chat_title b) w")
  have c: "connected w1 = connected w" "next_id w1 = next_id w"
    using approve_single_request_fields(2,3) [of env "chat_id b" "user_id b"
        "user_first_name b" "chat_title b" w] a by simp_all
  obtain r2 w2 where u: "queue_update env (rid b) (mark_processed (clock w1)) w1 = (r2, w2)"
    by (cases "queue_update env (rid b) (mark_processed (clock w1)) w1")
  have c2: "connected w2 = connected w" "next_id w2 = next_id w"
    using queue_update_fields [of env "rid b" "mark_processed (clock w1)" w1] u c by simp_all
  show "connected (snd (process_request env b w)) = connected w"
    "next_id (snd (process_request env b w)) = next_id w"
    using a u c c2 by (simp_all add: process_request_def split: sum.splits option.splits)
qed

lemma process_batch_touch:
  "distinct (map rid batch) \<Longrightarrow>
   \<forall>b \<in> set batch. find_one (rid b) (requests_queue w) = Some b \<and> \<not> processed b \<Longrightarrow>
   list_all2 (touch (rid ` set batch)) (requests_queue w)
     (requests_queue (snd (process_batch env batch w)))"
proof (induction batch arbitrary: w)
  case Nil
  then show ?case by simp
next
  case (Cons h rest)
  obtain r1 w1 where pr: "process_request env h w = (r1, w1)"
    by (cases "process_request env h w")
  have t1: "list_all2 (touch {rid h}) (requests_queue w) (requests_queue w1)"
    using process_request_touch [of h w env] Cons.prems(2) pr by simp
  show ?case
  proof (cases r1)
    case (Some e)
    then show ?thesis
      using pr t1 by (auto intro: list_all2_touch_mono)
  next
    case None
    have notin: "rid h \<notin> rid ` set rest" using Cons.prems(1) by auto
    have keep: "\<forall>b \<in> set rest. find_one (rid b) (requests_queue w1) = Some b \<and> \<not> processed b"
    proof
      fix b assume b: "b \<in> set rest"
      then have "rid b \<in> rid ` set rest" by simp
      then have "rid b \<noteq> rid h" using notin by metis
      then have "rid b \<notin> {rid h}" by simp
      then have "find_one (rid b) (requests_queue w1) = find_one (rid b) (requests_queue w)"
        using t1 by (rule find_one_touch_other [rotated])
      then show "find_one (rid b) (requests_queue w1) = Some b \<and> \<not> processed b"
        using Cons.prems(2) b by simp
    qed
    have "list_all2 (touch (rid ` set rest)) (requests_queue w1)
            (requests_queue (snd (process_batch env rest w1)))"
      using Cons.IH [of w1] Cons.prems(1) keep by simp
    with t1 have "list_all2 (touch (insert (rid h) (rid ` set rest))) (requests_queue w)
            (requests_queue (snd (process_batch env rest w1)))"
      using notin by (rule list_all2_touch_compose)
    then show ?thesis using pr None by simp
  qed
qed

lemma process_batch_fields_conj:
  "connected (snd (process_batch env batch w)) = connected w \<and>
   next_id (snd (process_batch env batch w)) = next_id w"
proof (induction batch arbitrary: w)
  case Nil
  show ?case by simp
next
  case (Cons h rest)
  obtain r1 w1 where pr: "process_request env h w = (r1, w1)"
    by (cases "process_request env h w")
  have c: "connected w1 = connected w" "next_id w1 = next_id w"
    using process_request_fields [of env h w] pr by simp_all
  show ?case
  proof (cases r1)
    case None
    then show ?thesis using pr c Cons.IH [of w1] by simp
  next
    case (Some e)
    then show ?thesis using pr c by simp
  qed
qed

lemma process_batch_fields [simp]:
  "connected (snd (process_batch env batch w)) = connected w"
  "next_id (snd (process_batch env batch w)) = next_id w"
  using process_batch_fields_conj [of env batch w] by simp_all


lemma fetch_batch_subset: "set (fetch_batch n q) \<subseteq> {r \<in> set q. \<not> processed r}"
proof
  fix r assume "r \<in> set (fetch_batch n q)"
  then have "r \<in> set (sort_key timestamp (filter (\<lambda>r. \<not> processed r) q))"
    unfolding fetch_batch_def by (rule in_set_takeD)
  then show "r \<in> {r \<in> set q. \<not> processed r}" by simp
qed

lemma fetch_batch_distinct:
  assumes "distinct (map rid q)"
  shows "distinct (map rid (fetch_batch n q))"
proof -
  have d: "distinct q" and i: "inj_on rid (set q)"
    using assms by (simp_all add: distinct_map)
  have "distinct (fetch_batch n q)"
    using d by (simp add: fetch_batch_def)
  moreover have "inj_on rid (set (fetch_batch n q))"
    using i fetch_batch_subset [of n q] by (auto intro: inj_on_subset)
  ultimately show ?thesis by (simp add: distinct_map)
qed

lemma touch_transition: "list_all2 (touch S) q q' \<Longrightarrow> list_all2 transition q q'"
  by (erule list_all2_mono) (simp add: touch_def)

lemma iteration_transition:
  assumes d: "distinct (map rid (requests_queue w))"
  shows "list_all2 transition (requests_queue w)
           (requests_queue (process_queue_iteration env w))"
proof (cases "env (trace w) QueueFind")
  case (Some e)
  then show ?thesis
    by (simp add: process_queue_iteration_def find_pending_def perform_eq sleep_def
        list_all2_refl)
next
  case None
  let ?w1 = "w\<lparr>trace := trace w @ [Called QueueFind None]\<rparr>"
  let ?batch = "fetch_batch 10 (requests_queue w)"
  have fp: "find_pending env 10 w = (Inr ?batch, ?w1)"
    using None by (simp add: find_pending_def perform_eq)
  have bd: "distinct (map rid ?batch)" using d by (rule fetch_batch_distinct)
  have bs: "\<forall>b \<in> set ?batch. find_one (rid b) (requests_queue ?w1) = Some b \<and> \<not> processed b"
    using fetch_batch_subset [of 10 "requests_queue w"] d
    by (auto simp: find_one_distinct)
  have "list_all2 (touch (rid ` set ?batch)) (requests_queue ?w1)
          (requests_queue (snd (process_batch env ?batch ?w1)))"
    using bd bs by (rule process_batch_touch)
  then have t: "list_all2 transition (requests_queue w)
          (requests_queue (snd (process_batch env ?batch ?w1)))"
    using touch_transition by fastforce
  obtain r2 w2 where pb: "process_batch env ?batch ?w1 = (r2, w2)"
    by (cases "process_batch env ?batch ?w1")
  show ?thesis
    using fp pb t
    by (simp add: process_queue_iteration_def sleep_def list_all2_refl split: option.splits)
qed

lemma iteration_fields [simp]:
  "connected (process_queue_iteration env w) = connected w"
  "next_id (process_queue_iteration env w) = next_id w"
proof -
  have "connected (process_queue_iteration env w) = connected w \<and>
        next_id (process_queue_iteration env w) = next_id w"
  proof (cases "env (trace w) QueueFind")
    case (Some e)
    then show ?thesis
      by (simp add: process_queue_iteration_def find_pending_def perform_eq sleep_def)
  next
    case None
    let ?w1 = "w\<lparr>trace := trace w @ [Called QueueFind None]\<rparr>"
    let ?batch = "fetch_batch 10 (requests_queue w)"
    obtain r2 w2 where pb: "process_batch env ?batch ?w1 = (r2, w2)"
      by (cases "process_batch env ?batch ?w1")
    have c: "connected w2 = connected w" "next_id w2 = next_id w"
      using process_batch_fields [of env ?batch ?w1] pb by simp_all
    show ?thesis
      using None pb c
      by (simp add: process_queue_iteration_def find_pending_def perform_eq sleep_def
          split: option.splits)
  qed
  then show "connected (process_queue_iteration env w) = connected w"
    "next_id (process_queue_iteration env w) = next_id w"
    by simp_all
qed

lemma list_all2_transition_rids:
  "list_all2 transition q q' \<Longrightarrow> map rid q' = map rid q"
  by (induction q q' rule: list_all2_induct) (simp_all add: transition_rid)

lemma transition_item_inv:
  "transition r r' \<Longrightarrow> item_inv r \<Longrightarrow> item_inv r' \<and> (failed r' \<longrightarrow> retries r = 2)"
  by (auto simp: transition_def item_inv_def)

lemma list_all2_transition_inv:
  "list_all2 transition q q' \<Longrightarrow> list_all item_inv q \<Longrightarrow> list_all item_inv q'"
  by (induction q q' rule: list_all2_induct) (auto dest: transition_item_inv)

lemma iteration_world_inv:
  assumes "world_inv w"
  shows "world_inv (process_queue_iteration env w)"
proof -
  have t: "list_all2 transition (requests_queue w) (requests_queue (process_queue_iteration env w))"
    using assms by (simp add: world_inv_def ids_ok_def iteration_transition)
  have ids: "map rid (requests_queue (process_queue_iteration env w)) = map rid (requests_queue w)"
    using t by (rule list_all2_transition_rids)
  have bound: "\<forall>r \<in> set (requests_queue (process_queue_iteration env w)).
      rid r < next_id (process_queue_iteration env w)"
  proof
    fix r assume "r \<in> set (requests_queue (process_queue_iteration env w))"
    then have "rid r \<in> set (map rid (requests_queue (process_queue_iteration env w)))"
      by simp
    then have "rid r \<in> set (map rid (requests_queue w))" using ids by simp
    then obtain r0 where "r0 \<in> set (requests_queue w)" "rid r0 = rid r" by auto
    then show "rid r < next_id (process_queue_iteration env w)"
      using assms by (auto simp: world_inv_def ids_ok_def)
  qed
  show ?thesis
    using assms t ids bound list_all2_transition_inv [OF t]
    by (simp add: world_inv_def ids_ok_def)
qed

lemma add_request_world_inv:
  assumes "world_inv w"
  shows "world_inv (snd (add_request_to_queue env jr w))"
proof (cases "connected w")
  case False
  then show ?thesis using assms by (simp add: add_request_to_queue_def)
next
  case True
  show ?thesis
  proof (cases "env (trace w) QueueInsert")
    case None
    have "item_inv (new_request jr w')" for w'
      by (simp add: item_inv_def new_request_def)
    then show ?thesis
      using True None assms
      by (auto simp: add_request_to_queue_def perform_eq world_inv_def ids_ok_def
          new_request_def less_Suc_eq)
  next
    case (Some e)
    let ?R = "approve_single_request env (jr_chat_id jr) (jr_user_id jr)
                (jr_user_first_name jr) (jr_chat_title jr)
                (w\<lparr>trace := trace w @ [Called QueueInsert (Some e)]\<rparr>)"
    have "snd (add_request_to_queue env jr w) = snd ?R"
      using True Some
      by (cases ?R) (auto simp: add_request_to_queue_def perform_eq split: sum.splits)
    then show ?thesis
      using assms by (simp add: world_inv_def ids_ok_def)
  qed
qed

lemma run_world_inv: "world_inv w \<Longrightarrow> world_inv (run env acts w)"
proof (induction acts arbitrary: w)
  case Nil
  then show ?case by simp
next
  case (Cons a acts)
  show ?case
  proof (cases a)
    case (Join jr)
    then show ?thesis using Cons add_request_world_inv by simp
  next
    case Pass
    then show ?thesis using Cons iteration_world_inv by simp
  qed
qed

lemma empty_world_inv: "requests_queue w = [] \<Longrightarrow> world_inv w"
  by (simp add: world_inv_def ids_ok_def)

text \<open>
  Claim C9. The documents of a store that started empty have distinct ids, whatever join
  events and passes came since. In a store whose documents have distinct ids, one pass of
  the processor loop relates every document to the document at the same place afterwards by \<open>transition\<close>:
  it is unchanged, or it was pending and got exactly one of the retry increment, the
  success update and the failure update. The id stays, a document with
  \<open>processed = True\<close> (Processed or Failed) is left exactly as it was, and the store has as
  many documents as before: none is deleted.
\<close>

theorem processor_pass_transitions:
  "(requests_queue v = [] \<longrightarrow> distinct (map rid (requests_queue (run env acts v))))
   \<and> (distinct (map rid (requests_queue w)) \<longrightarrow>
        list_all2 (\<lambda>r r'. transition r r' \<and> rid r' = rid r \<and> (processed r \<longrightarrow> r' = r))
          (requests_queue w) (requests_queue (process_queue_iteration env w)))"
proof (intro conjI impI)
  assume "requests_queue v = []"
  then have "world_inv (run env acts v)"
    by (simp add: empty_world_inv run_world_inv)
  then show "distinct (map rid (requests_queue (run env acts v)))"
    by (simp add: world_inv_def ids_ok_def)
next
  assume "distinct (map rid (requests_queue w))"
  then have "list_all2 transition (requests_queue w)
     (requests_queue (process_queue_iteration env w))"
    by (rule iteration_transition)
  then show "list_all2 (\<lambda>r r'. transition r r' \<and> rid r' = rid r \<and> (processed r \<longrightarrow> r' = r))
          (requests_queue w) (requests_queue (process_queue_iteration env w))"
    by (rule list_all2_mono) (auto simp: transition_rid, auto simp: transition_def)
qed

section \<open>The retry counter at exhaustion\<close>

lemma list_all2_transition_retries:
  "list_all2 transition q q' \<Longrightarrow> list_all item_inv q \<Longrightarrow>
   list_all2 (\<lambda>r r'. retries r' \<le> 2 \<and> (failed r' \<longrightarrow> retries r' = 2 \<and> retries r = 2)) q q'"
  by (induction q q' rule: list_all2_induct)
    (auto dest: transition_item_inv simp: item_inv_def)

text \<open>
  Claim C4, amended. Start from an empty queue and let join events and processor passes
  follow each other in any order. In the next pass, every document ends with
  \<open>retries \<le> 2\<close>, and a document that is failed after the pass has \<open>retries = 2\<close> both
  before and after it: the stored counter at the Failed transition is 2, one less than
  the limit 3, because the failure update does not count the failure that exhausts the
  retries.
\<close>

theorem retry_exhaustion_stores_two:
  "requests_queue w = [] \<Longrightarrow>
   list_all2 (\<lambda>r r'. retries r' \<le> 2 \<and> (failed r' \<longrightarrow> retries r' = 2 \<and> retries r = 2))
     (requests_queue (run env acts w))
     (requests_queue (process_queue_iteration env (run env acts w)))"
proof -
  assume "requests_queue w = []"
  then have inv: "world_inv (run env acts w)"
    by (simp add: empty_world_inv run_world_inv)
  then have t: "list_all2 transition (requests_queue (run env acts w))
     (requests_queue (process_queue_iteration env (run env acts w)))"
    by (simp add: world_inv_def ids_ok_def iteration_transition)
  have "list_all item_inv (requests_queue (run env acts w))"
    using inv by (simp add: world_inv_def)
  with t show ?thesis by (rule list_all2_transition_retries)
qed

text \<open>Ann's request under permanent rate limiting: two passes, then the third.\<close>

lemma run_two_passes:
  "requests_queue (run env_flood_always [Join ann, Pass, Pass] w0) = [r_ann\<lparr>retries := 2\<rparr>]"
  by (simp add: add_request_to_queue_def process_queue_iteration_def find_pending_def
      fetch_batch_def process_request_def on_request_exception_def queue_update_def
      approve_single_request_def approve_try_block_def on_flood_wait_def
      perform_eq sleep_def env_flood_always_def inc_retries_def mark_failed_def
      new_request_def r_ann_def ann_def w0_def Let_def)

lemma run_three_passes:
  "requests_queue (run env_flood_always [Join ann, Pass, Pass, Pass] w0) =
     [r_ann\<lparr>processed := True, retries := 2, failed := True, error := Some (FloodWait 5)\<rparr>]"
  by (simp add: add_request_to_queue_def process_queue_iteration_def find_pending_def
      fetch_batch_def process_request_def on_request_exception_def queue_update_def
      approve_single_request_def approve_try_block_def on_flood_wait_def
      perform_eq sleep_def env_flood_always_def inc_retries_def mark_failed_def
      new_request_def r_ann_def ann_def w0_def Let_def)

theorem retry_exhaustion_stores_two_witness:
  "requests_queue w0 = []
   \<and> requests_queue (run env_flood_always [Join ann, Pass, Pass] w0) = [r_ann\<lparr>retries := 2\<rparr>]
   \<and> requests_queue (process_queue_iteration env_flood_always
         (run env_flood_always [Join ann, Pass, Pass] w0)) =
       [r_ann\<lparr>processed := True, retries := 2, failed := True, error := Some (FloodWait 5)\<rparr>]
   \<and> list_all2 (\<lambda>r r'. retries r' \<le> 2 \<and> (failed r' \<longrightarrow> retries r' = 2 \<and> retries r = 2))
       [r_ann\<lparr>retries := 2\<rparr>]
       [r_ann\<lparr>processed := True, retries := 2, failed := True, error := Some (FloodWait 5)\<rparr>]"
proof -
  have e: "requests_queue w0 = []" by (simp add: w0_def)
  have three: "requests_queue (process_queue_iteration env_flood_always
         (run env_flood_always [Join ann, Pass, Pass] w0)) =
       [r_ann\<lparr>processed := True, retries := 2, failed := True, error := Some (FloodWait 5)\<rparr>]"
  proof -
    have "run env_flood_always [Join ann, Pass, Pass, Pass] w0 =
          process_queue env_flood_always 1 (run env_flood_always [Join ann, Pass, Pass] w0)"
      by simp
    moreover have "connected (run env_flood_always [Join ann, Pass, Pass] w0)"
      by (simp add: add_request_to_queue_def perform_eq w0_def env_flood_always_def)
    ultimately show ?thesis using run_three_passes by simp
  qed
  show ?thesis
    using retry_exhaustion_stores_two [OF e, of env_flood_always "[Join ann, Pass, Pass]"]
      e run_two_passes three
    by simp
qed

text \<open>
  Claim C4, as stated, at a concrete input: Ann's request under permanent rate limiting.
  After two passes it is pending with \<open>retries = 2\<close>; the third pass marks it failed,
  and the stored \<open>retries\<close> is 2, not 3.
\<close>

theorem exhausted_item_stores_two:
  "requests_queue (run env_flood_always [Join ann, Pass, Pass, Pass] w0) =
     [\<lparr>rid = 0, timestamp = 0, chat_id = 7, user_id = 42, user_first_name = ''Ann'',
       chat_title = ''Chat'', processed = True, retries = 2, failed = True,
       error = Some (FloodWait 5), approved_at = None\<rparr>]
   \<and> requests_queue (run env_flood_always [Join ann, Pass, Pass] w0) =
     [\<lparr>rid = 0, timestamp = 0, chat_id = 7, user_id = 42, user_first_name = ''Ann'',
       chat_title = ''Chat'', processed = False, retries = 2, failed = False,
       error = None, approved_at = None\<rparr>]"
  using run_three_passes run_two_passes by (simp add: r_ann_eq)

theorem processor_pass_transitions_witness:
  "requests_queue w0 = []
   \<and> distinct (map rid (requests_queue (run env_ok [Join ann] w0)))
   \<and> distinct (map rid (requests_queue w1_ann))
   \<and> requests_queue w1_ann = [r_ann]
   \<and> requests_queue (process_queue_iteration env_flood_always w1_ann) = [r_ann\<lparr>retries := 1\<rparr>]
   \<and> transition r_ann (r_ann\<lparr>retries := 1\<rparr>)"
proof -
  have e: "requests_queue w0 = []" by (simp add: w0_def)
  have d: "distinct (map rid (requests_queue w1_ann))" by (simp add: w1_ann_eq)
  have q: "requests_queue (process_queue_iteration env_flood_always w1_ann) = [r_ann\<lparr>retries := 1\<rparr>]"
    by (simp add: w1_ann_eq process_queue_iteration_def find_pending_def
      fetch_w1_ann process_request_def on_request_exception_def queue_update_def
      approve_single_request_def approve_try_block_def on_flood_wait_def
      perform_eq sleep_def env_flood_always_def inc_retries_def
      w0_def Let_def) (simp add: r_ann_eq)
  have t: "transition r_ann (r_ann\<lparr>retries := 1\<rparr>)"
    using processor_pass_transitions [of w0 env_flood_always "[]" w1_ann] d q
    by (simp add: w1_ann_eq)
  have r: "distinct (map rid (requests_queue (run env_ok [Join ann] w0)))"
    using processor_pass_transitions [of w0 env_ok "[Join ann]" w1_ann] e by blast
  show ?thesis
    using e r d q t by (simp add: w1_ann_eq)
qed

section \<open>The broadcast\<close>

lemma deliveries_append [simp]: "deliveries (xs @ ys) = deliveries xs @ deliveries ys"
  by (induction xs rule: deliveries.induct) auto

lemma flood_waits_append [simp]: "flood_waits (xs @ ys) = flood_waits xs @ flood_waits ys"
  by (induction xs rule: flood_waits.induct) auto

lemma retry_events_Nil [simp]: "retry_events u [] = []"
  by (simp add: retry_events_def)










lemma accounts_Nil [simp]: "accounts [] c c []"
  by (simp add: accounts_def)
























end
